theory Spec2Isabelle
  imports Main "HOL-Library.Sublist" "HOL-Library.Char_ord" "HOL-Library.List_Lexorder"
    "HOL-Library.Product_Lexorder"
begin

section \<open>Data model of overseer/models.py\<close>

text \<open>
  A \<open>DateTimeField\<close> is only ever compared and copied, so a point in time is an integer
  (say microseconds since the epoch). A \<open>SmallIntegerField\<close> is a Python int in memory;
  \<open>choices\<close> is not enforced by \<open>save()\<close>, so a status is any integer. A nullable
  \<open>TextField\<close> is \<open>None\<close> or a string. Primary keys are natural numbers.
\<close>

type_synonym datetime = int

record Service =
  s_pk :: nat
  s_name :: string
  s_slug :: string
  s_description :: "string option"
  s_status :: int
  s_order :: int
  s_date_created :: datetime
  s_date_updated :: datetime

record Event =
  e_pk :: nat
  e_status :: int
  e_peak_status :: int
  e_description :: "string option"
  e_message :: "string option"
  e_date_created :: datetime
  e_date_updated :: datetime

text \<open>
  An \<open>EventUpdate\<close> instance holds the \<open>Event\<close> object of its foreign key
  (\<open>instance.event\<close>): the object it was constructed with, or the stored event when the
  instance was loaded. That object may differ from the stored row of the same primary
  key. The stored row of the update keeps only the key, \<open>event_id\<close>.
\<close>

record EventUpdate =
  u_pk :: nat
  u_event :: Event
  u_status :: int
  u_message :: "string option"
  u_date_created :: datetime

record EventUpdateRow =
  ur_pk :: nat
  ur_event_id :: nat
  ur_status :: int
  ur_message :: "string option"
  ur_date_created :: datetime

definition EventUpdate_row :: "EventUpdate \<Rightarrow> EventUpdateRow" where
  "EventUpdate_row u =
     \<lparr>ur_pk = u_pk u, ur_event_id = e_pk (u_event u), ur_status = u_status u,
      ur_message = u_message u, ur_date_created = u_date_created u\<rparr>"

text \<open>
  The database: one list of rows per table. \<open>event_services\<close> is the through table of
  \<open>Event.services\<close>, a row being (event id, service id). A query without \<open>order_by\<close>
  returns rows in table order.
\<close>

record DB =
  services :: "Service list"
  events :: "Event list"
  event_services :: "(nat \<times> nat) list"
  event_updates :: "EventUpdateRow list"

datatype error = DoesNotExist | IndexError

text \<open>Python's truth value of a nullable text: \<open>None\<close> and \<open>''\<close> are false.\<close>

definition text_true :: "string option \<Rightarrow> bool" where
  "text_true t = (case t of None \<Rightarrow> False | Some s \<Rightarrow> s \<noteq> [])"

section \<open>EventBase.get_message\<close>

text \<open>
  \<open>get_message\<close> reads \<open>self.message\<close> and \<open>self.status\<close>, the two fields \<open>Event\<close> and
  \<open>EventUpdate\<close> share; the branches are in the source's order.
\<close>

definition get_message :: "string option \<Rightarrow> int \<Rightarrow> string" where
  "get_message message status =
     (if text_true message then the message
      else if status = 0 then ''Service is operating as expected.''
      else if status = 1 then ''Experiencing some issues. Services mostly operational.''
      else if status = 2 then ''Service is unavailable.''
      else '''')"

definition Event_get_message :: "Event \<Rightarrow> string" where
  "Event_get_message e = get_message (e_message e) (e_status e)"

definition EventUpdate_get_message :: "EventUpdate \<Rightarrow> string" where
  "EventUpdate_get_message u = get_message (u_message u) (u_status u)"

section \<open>Service.update_from_event\<close>

definition Service_get :: "DB \<Rightarrow> nat \<Rightarrow> Service option" where
  "Service_get db pk = find (\<lambda>r. s_pk r = pk) (services db)"

definition Event_get :: "DB \<Rightarrow> nat \<Rightarrow> Event option" where
  "Event_get db pk = find (\<lambda>r. e_pk r = pk) (events db)"

text \<open>
  The three conditional \<open>UPDATE\<close> statements on \<open>update_qs = Service.objects.filter(pk=self.pk)\<close>:
  \<open>.filter(date_updated__lt=d).update(date_updated=d)\<close>,
  \<open>.filter(status__lt=v).update(status=v)\<close> and \<open>.filter(status__gt=v).update(status=v)\<close>.
  Each tests the stored row, not the object in memory.
\<close>

definition update_qs_date_updated_lt :: "nat \<Rightarrow> datetime \<Rightarrow> DB \<Rightarrow> DB" where
  "update_qs_date_updated_lt pk d db =
     db\<lparr>services := map (\<lambda>r. if s_pk r = pk \<and> s_date_updated r < d
                                then r\<lparr>s_date_updated := d\<rparr> else r) (services db)\<rparr>"

definition update_qs_status_lt :: "nat \<Rightarrow> int \<Rightarrow> DB \<Rightarrow> DB" where
  "update_qs_status_lt pk v db =
     db\<lparr>services := map (\<lambda>r. if s_pk r = pk \<and> s_status r < v
                                then r\<lparr>s_status := v\<rparr> else r) (services db)\<rparr>"

definition update_qs_status_gt :: "nat \<Rightarrow> int \<Rightarrow> DB \<Rightarrow> DB" where
  "update_qs_status_gt pk v db =
     db\<lparr>services := map (\<lambda>r. if s_pk r = pk \<and> v < s_status r
                                then r\<lparr>s_status := v\<rparr> else r) (services db)\<rparr>"

text \<open>
  \<open>Event.objects.filter(services=self, status=self.status).exclude(pk=event.pk)\<close>:
  the stored events linked to \<open>self\<close> through the through table, at the status \<open>self\<close>
  has in memory, other than the triggering event.
\<close>

definition other_events_at_status :: "DB \<Rightarrow> Service \<Rightarrow> Event \<Rightarrow> Event list" where
  "other_events_at_status db self event =
     filter (\<lambda>e. (e_pk e, s_pk self) \<in> set (event_services db)
                \<and> e_status e = s_status self \<and> e_pk e \<noteq> e_pk event) (events db)"

text \<open>
  \<open>update_from_event\<close> mutates \<open>self\<close> and the database; it returns both. The first
  \<open>let\<close> is the timestamp block (lines 65-69), the rest the \<open>if\<close>/\<open>elif\<close> on the status
  (lines 71-85).
\<close>

definition update_from_event :: "Service \<Rightarrow> Event \<Rightarrow> DB \<Rightarrow> Service \<times> DB" where
  "update_from_event self event db =
     (let (self1, db1) =
            (if s_date_updated self < e_date_updated event
             then (self\<lparr>s_date_updated := e_date_updated event\<rparr>,
                   update_qs_date_updated_lt (s_pk self) (e_date_updated event) db)
             else (self, db))
      in if s_status self1 < e_status event
         then (self1\<lparr>s_status := e_status event\<rparr>,
               update_qs_status_lt (s_pk self1) (e_status event) db1)
         else if e_status event < s_status self1
         then (if other_events_at_status db1 self1 event = []
               then (self1\<lparr>s_status := e_status event\<rparr>,
                     update_qs_status_gt (s_pk self1) (e_status event) db1)
               else (self1, db1))
         else (self1, db1))"

section \<open>Service.handle_event_save\<close>

text \<open>
  \<open>instance.services.all()\<close>: the stored services linked to the event, in the order of
  \<open>Service.Meta.ordering = ('order', 'name')\<close>. The queryset is evaluated once, before
  the loop body runs.
\<close>

definition Event_services_all :: "DB \<Rightarrow> Event \<Rightarrow> Service list" where
  "Event_services_all db instance =
     sort_key (\<lambda>s. (s_order s, s_name s))
       (filter (\<lambda>s. (e_pk instance, s_pk s) \<in> set (event_services db)) (services db))"

definition handle_event_save :: "Event \<Rightarrow> DB \<Rightarrow> DB" where
  "handle_event_save instance db =
     foldl (\<lambda>d service. snd (update_from_event service instance d)) db
       (Event_services_all db instance)"

section \<open>Service.handle_event_m2m_save\<close>

text \<open>
  The \<open>m2m_changed\<close> signal of \<open>Event.services.through\<close> carries either an \<open>Event\<close> as
  \<open>instance\<close> with \<open>model = Service\<close> (the change was made from the event's side, and
  \<open>pk_set\<close> holds service ids), or a \<open>Service\<close> as \<open>instance\<close> with \<open>model = Event\<close> (made
  from the service's side, \<open>pk_set\<close> holds event ids). The pair (\<open>instance\<close>, \<open>model\<close>) is
  one value of \<open>m2m_change\<close>, and the test \<open>model is Service\<close> is the case distinction on
  it. \<open>sender\<close> and \<open>reverse\<close> are not read by the handler. \<open>pk_set\<close> is \<open>None\<close> for the
  \<open>clear\<close> actions.
\<close>

datatype m2m_change = Forward Event | Reverse Service

definition Service_filter_pk_in :: "DB \<Rightarrow> nat set \<Rightarrow> Service list" where
  "Service_filter_pk_in db pks =
     sort_key (\<lambda>s. (s_order s, s_name s)) (filter (\<lambda>s. s_pk s \<in> pks) (services db))"

definition Event_filter_pk_in :: "DB \<Rightarrow> nat set \<Rightarrow> Event list" where
  "Event_filter_pk_in db pks = filter (\<lambda>e. e_pk e \<in> pks) (events db)"

definition handle_event_m2m_save ::
  "m2m_change \<Rightarrow> string \<Rightarrow> nat set option \<Rightarrow> DB \<Rightarrow> m2m_change \<times> DB" where
  "handle_event_m2m_save instance action pk_set db =
     (if \<not> prefix ''post_'' action then (instance, db)
      else case pk_set of
        None \<Rightarrow> (instance, db)
      | Some pks \<Rightarrow>
          if pks = {} then (instance, db)
          else (case instance of
            Forward event \<Rightarrow>
              (instance,
               foldl (\<lambda>d service. snd (update_from_event service event d)) db
                 (Service_filter_pk_in db pks))
          | Reverse service \<Rightarrow>
              (case foldl (\<lambda>(s, d) event. update_from_event s event d) (service, db)
                      (Event_filter_pk_in db pks) of
                 (s', d') \<Rightarrow> (Reverse s', d'))))"

section \<open>Event.handle_update_save\<close>

text \<open>
  \<open>EventUpdate.objects.filter(event=event).order_by('-date_created')
  .values_list('event', flat=True)[0]\<close>: the \<open>event\<close> column of the event's newest
  update; indexing an empty result raises \<open>IndexError\<close>.
\<close>

definition newest_update_event :: "DB \<Rightarrow> Event \<Rightarrow> error + nat" where
  "newest_update_event db event =
     (case map ur_event_id
             (sort_key (\<lambda>r. - ur_date_created r)
                (filter (\<lambda>r. ur_event_id r = e_pk event) (event_updates db))) of
        [] \<Rightarrow> Inl IndexError
      | x # _ \<Rightarrow> Inr x)"

definition is_latest :: "bool \<Rightarrow> DB \<Rightarrow> Event \<Rightarrow> error + bool" where
  "is_latest created db event =
     (if created then Inr True
      else case newest_update_event db event of
        Inl err \<Rightarrow> Inl err
      | Inr x \<Rightarrow> if x = e_pk event then Inr True else Inr False)"

text \<open>
  \<open>update_kwargs\<close> always has the keys \<open>status\<close>, \<open>date_updated\<close> and \<open>message\<close>; the keys
  \<open>description\<close> and \<open>peak_status\<close> are present only under their guards (\<open>None\<close> here is
  an absent key). \<open>not event.peak_status\<close> is true exactly for 0.
\<close>

record update_kwargs =
  kw_status :: int
  kw_date_updated :: datetime
  kw_message :: "string option"
  kw_description :: "string option option"
  kw_peak_status :: "int option"

definition make_update_kwargs :: "Event \<Rightarrow> EventUpdate \<Rightarrow> update_kwargs" where
  "make_update_kwargs event instance =
     \<lparr>kw_status = u_status instance,
      kw_date_updated = u_date_created instance,
      kw_message = u_message instance,
      kw_description =
        (if \<not> text_true (e_description event) then Some (u_message instance) else None),
      kw_peak_status =
        (if e_peak_status event = 0 \<or> e_peak_status event < u_status instance
         then Some (u_status instance) else None)\<rparr>"

text \<open>Writing the keys of \<open>update_kwargs\<close> into an event: the \<open>setattr\<close> loop, and the
  \<open>SET\<close> clause of \<open>Event.objects.filter(pk=event.pk).update(**update_kwargs)\<close>.\<close>

definition set_kwargs :: "update_kwargs \<Rightarrow> Event \<Rightarrow> Event" where
  "set_kwargs kw e =
     e\<lparr>e_status := kw_status kw,
       e_date_updated := kw_date_updated kw,
       e_message := kw_message kw,
       e_description := (case kw_description kw of None \<Rightarrow> e_description e | Some d \<Rightarrow> d),
       e_peak_status := (case kw_peak_status kw of None \<Rightarrow> e_peak_status e | Some p \<Rightarrow> p)\<rparr>"

definition Event_update :: "nat \<Rightarrow> update_kwargs \<Rightarrow> DB \<Rightarrow> DB" where
  "Event_update pk kw db =
     db\<lparr>events := map (\<lambda>r. if e_pk r = pk then set_kwargs kw r else r) (events db)\<rparr>"

text \<open>
  \<open>event = instance.event\<close> is the object held by the update, and the guards of
  \<open>update_kwargs\<close> read that object; the \<open>UPDATE\<close> writes the stored row of the same
  primary key, and the \<open>setattr\<close> loop writes the object. The result is the object
  after the loop together with the database. After the write,
  \<open>post_save.send(sender=Event, ...)\<close> reaches its one receiver for that sender,
  \<open>Service.handle_event_save\<close> (line 175).
\<close>

definition handle_update_save :: "EventUpdate \<Rightarrow> bool \<Rightarrow> DB \<Rightarrow> error + Event \<times> DB" where
  "handle_update_save instance created db =
     (let event = u_event instance
      in case is_latest created db event of
           Inl err \<Rightarrow> Inl err
         | Inr latest \<Rightarrow>
             if latest
             then (let kw = make_update_kwargs event instance;
                       db1 = Event_update (e_pk event) kw db;
                       event1 = set_kwargs kw event
                   in Inr (event1, handle_event_save event1 db1))
             else Inr (event, db))"

section \<open>The operations that send the signals\<close>

text \<open>
  Saving a new \<open>EventUpdate\<close> inserts its row and sends \<open>post_save\<close> with
  \<open>created=True\<close> to \<open>Event.handle_update_save\<close> (line 176).
\<close>

definition EventUpdate_create :: "EventUpdate \<Rightarrow> DB \<Rightarrow> error + Event \<times> DB" where
  "EventUpdate_create instance db =
     handle_update_save instance True
       (db\<lparr>event_updates := event_updates db @ [EventUpdate_row instance]\<rparr>)"

text \<open>A sequence of appends, each update with the event object it holds.\<close>

fun append_updates :: "EventUpdate list \<Rightarrow> DB \<Rightarrow> error + DB" where
  "append_updates [] db = Inr db"
| "append_updates (u # us) db =
     (case EventUpdate_create u db of
        Inl err \<Rightarrow> Inl err
      | Inr (event, db') \<Rightarrow> append_updates us db')"

text \<open>
  \<open>in_step f us db\<close>: at each append of the sequence, the event object held by the
  update agrees on the field \<open>f\<close> with the stored event at that moment. This is so when
  the event is read from the database before the update is made, and when the object
  of the previous append is used again.
\<close>

fun in_step :: "(Event \<Rightarrow> 'a) \<Rightarrow> EventUpdate list \<Rightarrow> DB \<Rightarrow> bool" where
  "in_step f [] db = True"
| "in_step f (u # us) db =
     ((case Event_get db (e_pk (u_event u)) of
         None \<Rightarrow> False
       | Some row \<Rightarrow> f (u_event u) = f row)
      \<and> (case EventUpdate_create u db of
            Inl err \<Rightarrow> False
          | Inr (event, db') \<Rightarrow> in_step f us db'))"

text \<open>
  \<open>event.services.add(service)\<close>, \<open>event.services.remove(service)\<close> and
  \<open>event.services.clear()\<close>, and from the other side \<open>service.event_set.add(event)\<close> and
  \<open>service.event_set.remove(event)\<close>: the manager sends \<open>m2m_changed\<close> with the
  \<open>pre_\<close> action, changes the through table, and sends the \<open>post_\<close> action
  (line 177 connects the handler). \<open>add\<close> passes only the ids not linked yet.
\<close>

definition services_add :: "Event \<Rightarrow> nat \<Rightarrow> DB \<Rightarrow> DB" where
  "services_add event spk db =
     (let new_ids = (if (e_pk event, spk) \<in> set (event_services db) then {} else {spk});
          db1 = snd (handle_event_m2m_save (Forward event) ''pre_add'' (Some new_ids) db);
          db2 = db1\<lparr>event_services := event_services db1 @
                       (if spk \<in> new_ids then [(e_pk event, spk)] else [])\<rparr>
      in snd (handle_event_m2m_save (Forward event) ''post_add'' (Some new_ids) db2))"

definition services_remove :: "Event \<Rightarrow> nat \<Rightarrow> DB \<Rightarrow> DB" where
  "services_remove event spk db =
     (let db1 = snd (handle_event_m2m_save (Forward event) ''pre_remove'' (Some {spk}) db);
          db2 = db1\<lparr>event_services := filter (\<lambda>l. l \<noteq> (e_pk event, spk)) (event_services db1)\<rparr>
      in snd (handle_event_m2m_save (Forward event) ''post_remove'' (Some {spk}) db2))"

definition services_clear :: "Event \<Rightarrow> DB \<Rightarrow> DB" where
  "services_clear event db =
     (let db1 = snd (handle_event_m2m_save (Forward event) ''pre_clear'' None db);
          db2 = db1\<lparr>event_services := filter (\<lambda>l. fst l \<noteq> e_pk event) (event_services db1)\<rparr>
      in snd (handle_event_m2m_save (Forward event) ''post_clear'' None db2))"

definition event_set_add :: "Service \<Rightarrow> nat \<Rightarrow> DB \<Rightarrow> Service \<times> DB" where
  "event_set_add service epk db =
     (let new_ids = (if (epk, s_pk service) \<in> set (event_services db) then {} else {epk});
          db1 = snd (handle_event_m2m_save (Reverse service) ''pre_add'' (Some new_ids) db);
          db2 = db1\<lparr>event_services := event_services db1 @
                       (if epk \<in> new_ids then [(epk, s_pk service)] else [])\<rparr>
      in case handle_event_m2m_save (Reverse service) ''post_add'' (Some new_ids) db2 of
           (Reverse s', d') \<Rightarrow> (s', d')
         | (Forward _, d') \<Rightarrow> (service, d'))"

definition event_set_remove :: "Service \<Rightarrow> nat \<Rightarrow> DB \<Rightarrow> Service \<times> DB" where
  "event_set_remove service epk db =
     (let db1 = snd (handle_event_m2m_save (Reverse service) ''pre_remove'' (Some {epk}) db);
          db2 = db1\<lparr>event_services := filter (\<lambda>l. l \<noteq> (epk, s_pk service)) (event_services db1)\<rparr>
      in case handle_event_m2m_save (Reverse service) ''post_remove'' (Some {epk}) db2 of
           (Reverse s', d') \<Rightarrow> (s', d')
         | (Forward _, d') \<Rightarrow> (service, d'))"

section \<open>Concrete states\<close>

text \<open>
  A service \<open>db\<close> without problems and a new event \<open>E1\<close>; a service \<open>web\<close> that is
  unavailable, with two events; and updates of event 1.
\<close>

definition svc_db :: Service where
  "svc_db = \<lparr>s_pk = 1, s_name = ''db'', s_slug = ''db'', s_description = None, s_status = 0,
     s_order = 0, s_date_created = 0, s_date_updated = 0\<rparr>"
definition svc_web :: Service where
  "svc_web = \<lparr>s_pk = 2, s_name = ''web'', s_slug = ''web'', s_description = None, s_status = 2,
     s_order = 0, s_date_created = 0, s_date_updated = 5\<rparr>"
definition ev_E1 :: Event where
  "ev_E1 = \<lparr>e_pk = 1, e_status = 0, e_peak_status = 0, e_description = None, e_message = None,
     e_date_created = 1, e_date_updated = 1\<rparr>"
definition ev_A :: Event where
  "ev_A = \<lparr>e_pk = 2, e_status = 1, e_peak_status = 2, e_description = Some ''slow pages'',
     e_message = Some ''recovering'', e_date_created = 2, e_date_updated = 7\<rparr>"
definition ev_B :: Event where
  "ev_B = \<lparr>e_pk = 3, e_status = 2, e_peak_status = 2, e_description = Some ''web down'',
     e_message = None, e_date_created = 3, e_date_updated = 4\<rparr>"
definition db0 :: DB where
  "db0 = \<lparr>services = [svc_db], events = [ev_E1], event_services = [], event_updates = []\<rparr>"
definition db_web :: DB where
  "db_web = \<lparr>services = [svc_db, svc_web], events = [ev_E1, ev_A, ev_B],
     event_services = [(2, 2), (3, 2)], event_updates = []\<rparr>"
definition db_web1 :: DB where
  "db_web1 = \<lparr>services = [svc_db, svc_web], events = [ev_E1, ev_A, ev_B],
     event_services = [(2, 2), (3, 1)], event_updates = []\<rparr>"

text \<open>
  \<open>ev_E1_down\<close> is the stored event 1 after the update \<open>up1\<close>, \<open>ev_E1_blank\<close> after the
  update \<open>up_blank\<close>. The updates \<open>up2\<close>, \<open>up_late\<close> and \<open>up2_after_blank\<close> hold the event
  as it is stored when they are appended; \<open>up2_stale\<close> holds the event as it was before
  \<open>up1\<close>.
\<close>

definition ev_E1_down :: Event where
  "ev_E1_down = \<lparr>e_pk = 1, e_status = 2, e_peak_status = 2, e_description = Some ''db down'',
     e_message = Some ''db down'', e_date_created = 1, e_date_updated = 2\<rparr>"
definition ev_E1_blank :: Event where
  "ev_E1_blank = \<lparr>e_pk = 1, e_status = 2, e_peak_status = 2, e_description = Some '''',
     e_message = Some '''', e_date_created = 1, e_date_updated = 2\<rparr>"
definition up1 :: EventUpdate where
  "up1 = \<lparr>u_pk = 1, u_event = ev_E1, u_status = 2, u_message = Some ''db down'',
     u_date_created = 2\<rparr>"
definition up2 :: EventUpdate where
  "up2 = \<lparr>u_pk = 2, u_event = ev_E1_down, u_status = 1, u_message = Some ''partial recovery'',
     u_date_created = 3\<rparr>"
definition up2_stale :: EventUpdate where
  "up2_stale = \<lparr>u_pk = 2, u_event = ev_E1, u_status = 1, u_message = Some ''partial recovery'',
     u_date_created = 3\<rparr>"
definition up_late :: EventUpdate where
  "up_late = \<lparr>u_pk = 3, u_event = ev_E1_down, u_status = 0, u_message = Some ''backfilled note'',
     u_date_created = 1\<rparr>"
definition up_blank :: EventUpdate where
  "up_blank = \<lparr>u_pk = 4, u_event = ev_E1, u_status = 2, u_message = Some '''',
     u_date_created = 2\<rparr>"
definition up2_after_blank :: EventUpdate where
  "up2_after_blank = \<lparr>u_pk = 5, u_event = ev_E1_blank, u_status = 1,
     u_message = Some ''partial recovery'', u_date_created = 3\<rparr>"
text \<open>
  The scenario of the event \<open>E1\<close> on the service \<open>db\<close>: the update "db down" is
  appended and the event linked to the service; the update "partial recovery" is
  appended; the event is unlinked. \<open>observe\<close> reads the event's status and peak status,
  the service's status and the through table.
\<close>

definition scenario_down :: "error + DB" where
  "scenario_down =
     (case append_updates [up1] db0 of
        Inl err \<Rightarrow> Inl err
      | Inr d \<Rightarrow> (case Event_get d 1 of
                    None \<Rightarrow> Inl DoesNotExist
                  | Some e \<Rightarrow> Inr (services_add e 1 d)))"

definition scenario_recovering :: "error + DB" where
  "scenario_recovering =
     (case scenario_down of Inl err \<Rightarrow> Inl err | Inr d \<Rightarrow> append_updates [up2] d)"

definition scenario_unlinked :: "error + DB" where
  "scenario_unlinked =
     (case scenario_recovering of
        Inl err \<Rightarrow> Inl err
      | Inr d \<Rightarrow> (case Event_get d 1 of
                    None \<Rightarrow> Inl DoesNotExist
                  | Some e \<Rightarrow> Inr (services_remove e 1 d)))"

definition observe ::
  "error + DB \<Rightarrow> error + (int option \<times> int option \<times> int option \<times> (nat \<times> nat) list)" where
  "observe r = map_sum id (\<lambda>d. (map_option e_status (Event_get d 1),
      map_option e_peak_status (Event_get d 1), map_option s_status (Service_get d 1),
      event_services d)) r"

section \<open>Evaluation\<close>

lemmas model_defs =
  text_true_def get_message_def Event_get_message_def EventUpdate_get_message_def
  Service_get_def Event_get_def update_qs_date_updated_lt_def update_qs_status_lt_def
  update_qs_status_gt_def other_events_at_status_def update_from_event_def
  Event_services_all_def handle_event_save_def Service_filter_pk_in_def Event_filter_pk_in_def
  handle_event_m2m_save_def newest_update_event_def is_latest_def make_update_kwargs_def
  set_kwargs_def Event_update_def handle_update_save_def EventUpdate_create_def
  EventUpdate_row_def Let_def
  services_add_def services_remove_def services_clear_def event_set_add_def event_set_remove_def

lemmas input_defs =
  svc_db_def svc_web_def ev_E1_def ev_A_def ev_B_def db0_def db_web_def db_web1_def
  ev_E1_down_def ev_E1_blank_def up1_def up2_def up2_stale_def up_late_def up_blank_def
  up2_after_blank_def

section \<open>The service aggregator: what one call does\<close>

lemma find_pk_map:
  assumes "\<And>r. s_pk (f r) = s_pk r"
  shows "find (\<lambda>r. s_pk r = pk) (map f rows) = map_option f (find (\<lambda>r. s_pk r = pk) rows)"
  by (induction rows) (simp_all add: assms)

lemma Service_get_date_updated_lt:
  "Service_get (update_qs_date_updated_lt pk d db) k =
     map_option (\<lambda>r. if s_pk r = pk \<and> s_date_updated r < d then r\<lparr>s_date_updated := d\<rparr> else r)
       (Service_get db k)"
  unfolding Service_get_def update_qs_date_updated_lt_def
  by (simp add: find_pk_map)

lemma Service_get_status_lt:
  "Service_get (update_qs_status_lt pk v db) k =
     map_option (\<lambda>r. if s_pk r = pk \<and> s_status r < v then r\<lparr>s_status := v\<rparr> else r)
       (Service_get db k)"
  unfolding Service_get_def update_qs_status_lt_def
  by (simp add: find_pk_map)

lemma Service_get_status_gt:
  "Service_get (update_qs_status_gt pk v db) k =
     map_option (\<lambda>r. if s_pk r = pk \<and> v < s_status r then r\<lparr>s_status := v\<rparr> else r)
       (Service_get db k)"
  unfolding Service_get_def update_qs_status_gt_def
  by (simp add: find_pk_map)

lemma other_events_date_updated_lt [simp]:
  "other_events_at_status (update_qs_date_updated_lt pk d db) self event =
   other_events_at_status db self event"
  by (simp add: other_events_at_status_def update_qs_date_updated_lt_def)

lemma other_events_self_date [simp]:
  "other_events_at_status db (self\<lparr>s_date_updated := d\<rparr>) event =
   other_events_at_status db self event"
  by (simp add: other_events_at_status_def)

lemmas Service_get_update_qs =
  Service_get_date_updated_lt Service_get_status_lt Service_get_status_gt

text \<open>in-memory result\<close>
lemma update_from_event_self:
  "fst (update_from_event self event db) =
     self\<lparr>s_date_updated := max (s_date_updated self) (e_date_updated event),
          s_status := (if s_status self < e_status event then e_status event
                       else if e_status event < s_status self \<and> other_events_at_status db self event = []
                       then e_status event else s_status self)\<rparr>"
  by (simp add: update_from_event_def Let_def max_def)

lemma update_from_event_stored:
  assumes "Service_get db (s_pk self) = Some self"
  shows "Service_get (snd (update_from_event self event db)) (s_pk self) =
         Some (fst (update_from_event self event db))"
  using assms
  by (simp add: update_from_event_def Let_def Service_get_update_qs)

section \<open>The event aggregator: what a sequence of appends does\<close>

lemma events_update_from_event [simp]:
  "events (snd (update_from_event s e db)) = events db"
  by (simp add: update_from_event_def Let_def update_qs_date_updated_lt_def
      update_qs_status_lt_def update_qs_status_gt_def)

lemma events_service_loop [simp]:
  "events (foldl (\<lambda>d service. snd (update_from_event service e d)) db xs) = events db"
  by (induction xs arbitrary: db) simp_all

lemma events_handle_event_save [simp]: "events (handle_event_save e db) = events db"
  by (simp add: handle_event_save_def)

lemma find_e_pk: "find (\<lambda>r. e_pk r = pk) rows = Some ev \<Longrightarrow> e_pk ev = pk"
  by (induction rows) (auto split: if_splits)

lemma find_e_pk_map:
  assumes "\<And>r. e_pk (f r) = e_pk r"
  shows "find (\<lambda>r. e_pk r = pk) (map f rows) = map_option f (find (\<lambda>r. e_pk r = pk) rows)"
  by (induction rows) (simp_all add: assms)

lemma e_pk_set_kwargs [simp]: "e_pk (set_kwargs kw e) = e_pk e"
  by (simp add: set_kwargs_def)

lemma Event_get_Event_update:
  "Event_get (Event_update k kw db) pk =
     map_option (\<lambda>r. if e_pk r = k then set_kwargs kw r else r) (Event_get db pk)"
  unfolding Event_get_def Event_update_def
  by (simp add: find_e_pk_map)

lemma Event_get_handle_event_save [simp]:
  "Event_get (handle_event_save e db) pk = Event_get db pk"
  by (simp add: Event_get_def)

lemma Event_get_event_updates [simp]:
  "Event_get (db\<lparr>event_updates := x\<rparr>) pk = Event_get db pk"
  by (simp add: Event_get_def)

lemma handle_update_save_created:
  "handle_update_save u True db =
     Inr (set_kwargs (make_update_kwargs (u_event u) u) (u_event u),
          handle_event_save (set_kwargs (make_update_kwargs (u_event u) u) (u_event u))
            (Event_update (e_pk (u_event u)) (make_update_kwargs (u_event u) u) db))"
  by (simp add: handle_update_save_def is_latest_def Let_def)

text \<open>
  One append on a stored event: it succeeds, and the stored row is rewritten with the
  keys that the guards on the held object select.
\<close>

lemma EventUpdate_create_event:
  assumes "Event_get db pk = Some row" and "e_pk (u_event u) = pk"
  shows "\<exists>obj db'. EventUpdate_create u db = Inr (obj, db')
           \<and> Event_get db' pk = Some (set_kwargs (make_update_kwargs (u_event u) u) row)"
proof -
  have "e_pk row = pk"
    using assms(1) unfolding Event_get_def by (rule find_e_pk)
  then show ?thesis
    unfolding EventUpdate_create_def using assms
    by (simp add: handle_update_save_created Event_get_Event_update)
qed

text \<open>A sequence of appends on one stored event folds that rewrite over the updates.\<close>

lemma append_updates_event:
  assumes "Event_get db pk = Some row" and "\<forall>u \<in> set us. e_pk (u_event u) = pk"
  shows "\<exists>db'. append_updates us db = Inr db'
           \<and> Event_get db' pk =
               Some (foldl (\<lambda>r u. set_kwargs (make_update_kwargs (u_event u) u) r) row us)"
  using assms
proof (induction us arbitrary: db row)
  case Nil
  then show ?case by simp
next
  case (Cons u us)
  from Cons.prems have "e_pk (u_event u) = pk" by simp
  from EventUpdate_create_event [OF Cons.prems(1) this] obtain obj db1 where
    db1: "EventUpdate_create u db = Inr (obj, db1)"
      "Event_get db1 pk = Some (set_kwargs (make_update_kwargs (u_event u) u) row)"
    by blast
  from Cons.IH [OF db1(2)] Cons.prems db1(1) show ?case by simp
qed


lemma set_kwargs_latest [simp]:
  "e_status (set_kwargs (make_update_kwargs e u) r) = u_status u"
  "e_message (set_kwargs (make_update_kwargs e u) r) = u_message u"
  "e_date_updated (set_kwargs (make_update_kwargs e u) r) = u_date_created u"
  by (simp_all add: set_kwargs_def make_update_kwargs_def)


lemma set_kwargs_description:
  "e_description (set_kwargs (make_update_kwargs e u) r) =
     (if text_true (e_description e) then e_description r else u_message u)"
  by (simp add: set_kwargs_def make_update_kwargs_def)

lemma foldl_latest:
  "us \<noteq> [] \<Longrightarrow>
   e_status (foldl (\<lambda>r u. set_kwargs (make_update_kwargs (u_event u) u) r) row us)
     = u_status (last us)
   \<and> e_message (foldl (\<lambda>r u. set_kwargs (make_update_kwargs (u_event u) u) r) row us)
     = u_message (last us)
   \<and> e_date_updated (foldl (\<lambda>r u. set_kwargs (make_update_kwargs (u_event u) u) r) row us)
     = u_date_created (last us)"
  by (induction us rule: rev_induct) simp_all


lemma in_step_fold:
  assumes compat: "\<And>obj u r r'. f obj = f r \<Longrightarrow> f r = f r' \<Longrightarrow>
      f (set_kwargs (make_update_kwargs obj u) r) = f (set_kwargs (make_update_kwargs r' u) r')"
    and "Event_get db pk = Some row" and "\<forall>u \<in> set us. e_pk (u_event u) = pk"
    and "in_step f us db" and "f row = f r0"
  shows "\<exists>db' row'. append_updates us db = Inr db' \<and> Event_get db' pk = Some row'
           \<and> f row' = f (foldl (\<lambda>e u. set_kwargs (make_update_kwargs e u) e) r0 us)"
  using assms(2-)
proof (induction us arbitrary: db row r0)
  case Nil
  then show ?case by simp
next
  case (Cons u us)
  have pk: "e_pk (u_event u) = pk" using Cons.prems(2) by simp
  from EventUpdate_create_event [OF Cons.prems(1) pk] obtain obj db1 where
    db1: "EventUpdate_create u db = Inr (obj, db1)"
      "Event_get db1 pk = Some (set_kwargs (make_update_kwargs (u_event u) u) row)"
    by blast
  have held: "f (u_event u) = f row" and rest: "in_step f us db1"
    using Cons.prems(1,3) pk db1(1) by simp_all
  have "f (set_kwargs (make_update_kwargs (u_event u) u) row)
      = f (set_kwargs (make_update_kwargs r0 u) r0)"
    using held Cons.prems(4) by (rule compat)
  from Cons.IH [OF db1(2) _ rest this] Cons.prems(2) db1(1) show ?case by simp
qed


lemma description_compat:
  "e_description obj = e_description r \<Longrightarrow> e_description r = e_description r' \<Longrightarrow>
   e_description (set_kwargs (make_update_kwargs obj u) r)
     = e_description (set_kwargs (make_update_kwargs r' u) r')"
  by (simp add: set_kwargs_description)


lemma foldl_description_set:
  "text_true (e_description ev) \<Longrightarrow>
   e_description (foldl (\<lambda>e u. set_kwargs (make_update_kwargs e u) e) ev us) = e_description ev"
  by (induction us arbitrary: ev) (simp_all add: set_kwargs_description)

lemma foldl_description_unset:
  "\<not> text_true (e_description ev) \<Longrightarrow>
   e_description (foldl (\<lambda>e u. set_kwargs (make_update_kwargs e u) e) ev us) =
     (case find (\<lambda>u. text_true (u_message u)) us of
        Some u \<Rightarrow> u_message u
      | None \<Rightarrow> if us = [] then e_description ev else u_message (last us))"
proof (induction us arbitrary: ev)
  case Nil
  then show ?case by simp
next
  case (Cons u us)
  show ?case
  proof (cases "text_true (u_message u)")
    case True
    then show ?thesis
      using Cons.prems by (simp add: foldl_description_set set_kwargs_description)
  next
    case False
    then have "\<not> text_true (e_description (set_kwargs (make_update_kwargs ev u) ev))"
      using Cons.prems by (simp add: set_kwargs_description)
    from Cons.IH [OF this] False Cons.prems show ?thesis
      by (simp add: set_kwargs_description split: option.splits)
  qed
qed

lemma sorted_last_greatest:
  fixes xs :: "int list"
  assumes "sorted xs" and "x \<in> set xs"
  shows "x \<le> last xs"
  using assms
  by (induction xs) (auto split: if_splits)

section \<open>Association changes of one link\<close>

lemma filter_key_singleton:
  "distinct (map f rows) \<Longrightarrow> find (\<lambda>r. f r = k) rows = Some s \<Longrightarrow>
   filter (\<lambda>r. f r = k) rows = [s]"
proof (induction rows)
  case Nil
  then show ?case by simp
next
  case (Cons x xs)
  show ?case
  proof (cases "f x = k")
    case True
    with Cons.prems have "x = s" and "k \<notin> f ` set xs" by auto
    then have "filter (\<lambda>r. f r = k) xs = []"
      by (auto simp: filter_empty_conv)
    with True \<open>x = s\<close> show ?thesis by simp
  next
    case False
    with Cons show ?thesis by simp
  qed
qed

lemma find_s_pk: "find (\<lambda>r. s_pk r = pk) rows = Some s \<Longrightarrow> s_pk s = pk"
  by (induction rows) (auto split: if_splits)

lemma Service_filter_pk_in_single:
  assumes "distinct (map s_pk (services db))" and "Service_get db spk = Some service"
  shows "Service_filter_pk_in db {spk} = [service]"
  using filter_key_singleton [OF assms(1), of spk service] assms(2)
  by (simp add: Service_filter_pk_in_def Service_get_def)

lemma Event_filter_pk_in_single:
  assumes "distinct (map e_pk (events db))" and "Event_get db epk = Some event"
  shows "Event_filter_pk_in db {epk} = [event]"
  using filter_key_singleton [OF assms(1), of epk event] assms(2)
  by (simp add: Event_filter_pk_in_def Event_get_def)

lemma post_add_forward:
  assumes "distinct (map s_pk (services db))" and "Service_get db spk = Some service"
  shows "handle_event_m2m_save (Forward event) ''post_add'' (Some {spk}) db =
           (Forward event, snd (update_from_event service event db))"
  using Service_filter_pk_in_single [OF assms]
  by (simp add: handle_event_m2m_save_def)

lemma post_add_reverse:
  assumes "distinct (map e_pk (events db))" and "Event_get db epk = Some event"
  shows "handle_event_m2m_save (Reverse service) ''post_add'' (Some {epk}) db =
           (Reverse (fst (update_from_event service event db)),
            snd (update_from_event service event db))"
  using Event_filter_pk_in_single [OF assms]
  by (simp add: handle_event_m2m_save_def split: prod.splits)

lemma pre_action_noop [simp]:
  "handle_event_m2m_save i ''pre_add'' ps db = (i, db)"
  "handle_event_m2m_save i ''pre_remove'' ps db = (i, db)"
  "handle_event_m2m_save i ''pre_clear'' ps db = (i, db)"
  by (simp_all add: handle_event_m2m_save_def)

section \<open>Claims\<close>

text \<open>
  C1 (amended). \<open>handle_update_save\<close> takes every newly created update as the latest:
  after each append to a stored event, the event's \<open>status\<close>, \<open>message\<close> and
  \<open>date_updated\<close> are those of the update appended last, whatever its creation
  timestamp. When the updates are appended in non-decreasing order of creation
  timestamp, the update appended last has the greatest creation timestamp of all
  appended so far.
\<close>

theorem status_follows_last_append:
  assumes "Event_get db pk = Some ev" and "us \<noteq> []"
    and "\<forall>u \<in> set us. e_pk (u_event u) = pk"
  shows "\<exists>db' ev'. append_updates us db = Inr db' \<and> Event_get db' pk = Some ev'
           \<and> e_status ev' = u_status (last us)
           \<and> e_message ev' = u_message (last us)
           \<and> e_date_updated ev' = u_date_created (last us)
           \<and> (sorted (map u_date_created us) \<longrightarrow>
                (\<forall>u \<in> set us. u_date_created u \<le> u_date_created (last us)))"
proof -
  from append_updates_event [OF assms(1,3)] obtain db' where
    db': "append_updates us db = Inr db'"
      "Event_get db' pk =
         Some (foldl (\<lambda>r u. set_kwargs (make_update_kwargs (u_event u) u) r) ev us)"
    by blast
  have "\<forall>u \<in> set us. u_date_created u \<le> u_date_created (last us)"
    if "sorted (map u_date_created us)"
    using sorted_last_greatest [OF that] assms(2) by (simp add: last_map)
  with db' foldl_latest [OF assms(2), of ev] show ?thesis by simp
qed

theorem status_follows_last_append_witness:
  "\<exists>db' ev'. append_updates [up1, up2] db0 = Inr db' \<and> Event_get db' 1 = Some ev'
     \<and> e_status ev' = 1 \<and> e_message ev' = Some ''partial recovery'' \<and> e_date_updated ev' = 3
     \<and> u_date_created up1 \<le> u_date_created up2"
  using status_follows_last_append [of db0 1 ev_E1 "[up1, up2]"]
  by (simp add: input_defs Event_get_def)

text \<open>
  The claim as stated fails: \<open>up_late\<close> is appended after \<open>up1\<close> with an older creation
  timestamp, holding the event as it is stored, and the event takes its status although \<open>up1\<close> has the greatest timestamp.
\<close>

theorem status_latest_timestamp_counterexample:
  "u_date_created up_late < u_date_created up1
   \<and> in_step (\<lambda>e. e) [up1, up_late] db0
   \<and> map_sum id (\<lambda>d. map_option e_status (Event_get d 1)) (append_updates [up1] db0)
       = Inr (Some (u_status up1))
   \<and> map_sum id (\<lambda>d. map_option e_status (Event_get d 1)) (append_updates [up1, up_late] db0)
       = Inr (Some (u_status up_late))
   \<and> u_status up_late \<noteq> u_status up1"
  by (simp add: input_defs model_defs)

text \<open>
  C2. The code at the scenario: after the update "partial recovery" the event and the
  service are both at status 1, and unlinking the event leaves the service at status 1.
  \<open>update_from_event\<close> compares the unlinked event's status with the service's, finds
  them equal and does nothing, although no event remains linked.
\<close>

theorem unlink_scenario:
  "observe scenario_down = Inr (Some 2, Some 2, Some 2, [(1, 1)])
   \<and> observe scenario_recovering = Inr (Some 1, Some 2, Some 1, [(1, 1)])
   \<and> observe scenario_unlinked = Inr (Some 1, Some 2, Some 1, [])"
  by (simp add: observe_def scenario_unlinked_def scenario_recovering_def scenario_down_def
      input_defs model_defs)




text \<open>
  C4. When the triggering event's status is strictly below the service's status,
  \<open>update_from_event\<close> lowers the service's status to the event's status if and only if
  no other stored event linked to the service has the service's status; otherwise the
  status stays. The stored row of a service read from the database follows the object.
\<close>

theorem lower_iff_no_other_event:
  assumes "e_status event < s_status self"
  shows "s_status (fst (update_from_event self event db)) =
           (if \<exists>e \<in> set (events db). (e_pk e, s_pk self) \<in> set (event_services db)
                  \<and> e_status e = s_status self \<and> e_pk e \<noteq> e_pk event
            then s_status self else e_status event)
       \<and> (Service_get db (s_pk self) = Some self \<longrightarrow>
            map_option s_status (Service_get (snd (update_from_event self event db)) (s_pk self)) =
              Some (s_status (fst (update_from_event self event db))))"
proof -
  have "other_events_at_status db self event = [] \<longleftrightarrow>
        \<not> (\<exists>e \<in> set (events db). (e_pk e, s_pk self) \<in> set (event_services db)
                  \<and> e_status e = s_status self \<and> e_pk e \<noteq> e_pk event)"
    by (auto simp: other_events_at_status_def filter_empty_conv)
  with assms show ?thesis
    by (simp add: update_from_event_self update_from_event_stored)
qed

theorem lower_iff_no_other_event_witness:
  "e_status ev_A < s_status svc_web
   \<and> s_status (fst (update_from_event svc_web ev_A db_web)) = 2
   \<and> map_option s_status (Service_get (snd (update_from_event svc_web ev_A db_web)) 2) = Some 2
   \<and> s_status (fst (update_from_event svc_web ev_A db_web1)) = 1
   \<and> map_option s_status (Service_get (snd (update_from_event svc_web ev_A db_web1)) 2) = Some 1"
  using lower_iff_no_other_event [of ev_A svc_web db_web]
    lower_iff_no_other_event [of ev_A svc_web db_web1]
  by (simp add: input_defs model_defs)

text \<open>
  C5 (amended). For appends at each of which the event object held by the update
  agrees with the stored event on \<open>description\<close>: once the stored description is
  non-empty, no sequence of such appends changes it. While it is unset or empty, every
  append writes its message into it, so after the appends the description is the
  message of the first update with a non-empty message, or the last update's message
  when none has one.
\<close>

theorem description_sticky:
  assumes "Event_get db pk = Some ev" and "\<forall>u \<in> set us. e_pk (u_event u) = pk"
    and "in_step e_description us db"
  shows "\<exists>db' ev'. append_updates us db = Inr db' \<and> Event_get db' pk = Some ev'
           \<and> e_description ev' =
               (if text_true (e_description ev) then e_description ev
                else case find (\<lambda>u. text_true (u_message u)) us of
                       Some u \<Rightarrow> u_message u
                     | None \<Rightarrow> if us = [] then e_description ev else u_message (last us))"
proof -
  from in_step_fold [of e_description, OF description_compat assms refl]
  obtain db' ev' where
    "append_updates us db = Inr db'" "Event_get db' pk = Some ev'"
    "e_description ev' =
       e_description (foldl (\<lambda>e u. set_kwargs (make_update_kwargs e u) e) ev us)"
    by blast
  then show ?thesis
    by (cases "text_true (e_description ev)")
      (simp_all add: foldl_description_set foldl_description_unset)
qed

theorem description_sticky_witness:
  "in_step e_description [up_blank, up2_after_blank] db0
   \<and> (\<exists>db' ev'. append_updates [up_blank, up2_after_blank] db0 = Inr db'
        \<and> Event_get db' 1 = Some ev' \<and> e_description ev' = Some ''partial recovery'')
   \<and> in_step e_description [up1\<lparr>u_event := ev_A\<rparr>, up2\<lparr>u_event := ev_A\<rparr>] db_web
   \<and> (\<exists>db' ev'. append_updates [up1\<lparr>u_event := ev_A\<rparr>, up2\<lparr>u_event := ev_A\<rparr>] db_web = Inr db'
        \<and> Event_get db' 2 = Some ev' \<and> e_description ev' = Some ''slow pages'')"
proof -
  have a: "in_step e_description [up_blank, up2_after_blank] db0"
    by (simp add: input_defs model_defs)
  have b: "in_step e_description [up1\<lparr>u_event := ev_A\<rparr>, up2\<lparr>u_event := ev_A\<rparr>] db_web"
    by (simp add: input_defs model_defs)
  have sa: "Event_get db0 1 = Some ev_E1"
    and pa: "\<forall>u \<in> set [up_blank, up2_after_blank]. e_pk (u_event u) = 1"
    and sb: "Event_get db_web 2 = Some ev_A"
    and pb: "\<forall>u \<in> set [up1\<lparr>u_event := ev_A\<rparr>, up2\<lparr>u_event := ev_A\<rparr>]. e_pk (u_event u) = 2"
    by (simp_all add: input_defs Event_get_def)
  from description_sticky [OF sa pa a] description_sticky [OF sb pb b] a b show ?thesis
    by (simp add: input_defs text_true_def)
qed

text \<open>
  The claim as stated fails in two ways. The first update \<open>up_blank\<close> has an empty
  message, the aggregator writes it into the description, and the second update writes
  the description again, each update holding the event as stored. And \<open>up2_stale\<close>
  holds the event as it was before \<open>up1\<close>, without a description, so its append
  overwrites the stored description "db down".
\<close>

theorem description_written_twice_counterexample:
  "in_step e_description [up_blank, up2_after_blank] db0
   \<and> map_sum id (\<lambda>d. map_option e_description (Event_get d 1)) (append_updates [] db0)
     = Inr (Some None)
   \<and> map_sum id (\<lambda>d. map_option e_description (Event_get d 1)) (append_updates [up_blank] db0)
     = Inr (Some (Some ''''))
   \<and> map_sum id (\<lambda>d. map_option e_description (Event_get d 1))
       (append_updates [up_blank, up2_after_blank] db0) = Inr (Some (Some ''partial recovery''))
   \<and> map_sum id (\<lambda>d. map_option e_description (Event_get d 1)) (append_updates [up1] db0)
     = Inr (Some (Some ''db down''))
   \<and> map_sum id (\<lambda>d. map_option e_description (Event_get d 1))
       (append_updates [up1, up2_stale] db0) = Inr (Some (Some ''partial recovery''))"
  by (simp add: input_defs model_defs)

text \<open>
  C6. Linking a stored event to a stored service it was not linked to, from either
  side, when the event's status is strictly greater than the service's: the service's
  stored status (and the service object, when the link is made from its side) is the
  event's status afterwards.
\<close>

theorem link_raises_status:
  assumes "distinct (map s_pk (services db))" and "distinct (map e_pk (events db))"
    and "Service_get db spk = Some service" and "Event_get db epk = Some event"
    and "(epk, spk) \<notin> set (event_services db)"
    and "s_status service < e_status event"
  shows "map_option s_status (Service_get (services_add event spk db) spk) = Some (e_status event)
       \<and> s_status (fst (event_set_add service epk db)) = e_status event
       \<and> map_option s_status (Service_get (snd (event_set_add service epk db)) spk)
           = Some (e_status event)"
proof -
  have epk: "e_pk event = epk"
    using assms(4) unfolding Event_get_def by (rule find_e_pk)
  have spk: "s_pk service = spk"
    using assms(3) unfolding Service_get_def by (rule find_s_pk)
  let ?db2 = "db\<lparr>event_services := event_services db @ [(epk, spk)]\<rparr>"
  have s2: "distinct (map s_pk (services ?db2))" "Service_get ?db2 spk = Some service"
    and e2: "distinct (map e_pk (events ?db2))" "Event_get ?db2 epk = Some event"
    using assms by (simp_all add: Service_get_def Event_get_def)
  have stored: "Service_get (snd (update_from_event service event ?db2)) spk =
      Some (fst (update_from_event service event ?db2))"
    using update_from_event_stored [of ?db2 service event] s2(2) spk by simp
  have raised: "s_status (fst (update_from_event service event ?db2)) = e_status event"
    using assms(6) by (simp add: update_from_event_self)
  have fwd: "services_add event spk db = snd (update_from_event service event ?db2)"
    using assms(5) epk post_add_forward [OF s2, of event]
    by (simp add: services_add_def)
  have rev: "event_set_add service epk db = update_from_event service event ?db2"
    using assms(5) spk post_add_reverse [OF e2, of service]
    by (simp add: event_set_add_def)
  show ?thesis
    using stored raised by (simp add: fwd rev)
qed

theorem link_raises_status_witness:
  "s_status svc_db < e_status ev_B
   \<and> map_option s_status (Service_get (services_add ev_B 1 db_web) 1) = Some 2
   \<and> s_status (fst (event_set_add svc_db 3 db_web)) = 2
   \<and> map_option s_status (Service_get (snd (event_set_add svc_db 3 db_web)) 1) = Some 2"
  using link_raises_status [of db_web 1 svc_db 3 ev_B]
  by (simp add: input_defs Service_get_def Event_get_def)

text \<open>
  C7. Under every call of \<open>update_from_event\<close> the service's \<open>date_updated\<close> becomes
  the event's \<open>date_updated\<close> exactly when that is strictly greater, and otherwise
  stays; it never decreases, neither on the object nor on any stored row. In the
  stored rows, \<open>date_updated\<close> is raised to the event's in exactly the rows of the
  service's primary key that are older than the event, when the object is older too;
  so the stored row of a service read from the database is raised exactly when the
  event is strictly newer.
\<close>

theorem date_updated_monotone:
  "s_date_updated (fst (update_from_event self event db)) =
     (if s_date_updated self < e_date_updated event then e_date_updated event
      else s_date_updated self)
   \<and> s_date_updated self \<le> s_date_updated (fst (update_from_event self event db))
   \<and> list_all2 (\<lambda>r r'. s_pk r' = s_pk r \<and> s_date_updated r \<le> s_date_updated r'
        \<and> (s_date_updated r' = s_date_updated r \<or> s_date_updated r' = e_date_updated event))
        (services db) (services (snd (update_from_event self event db)))
   \<and> map s_date_updated (services (snd (update_from_event self event db))) =
       map (\<lambda>r. if s_pk r = s_pk self \<and> s_date_updated self < e_date_updated event
                    \<and> s_date_updated r < e_date_updated event
                 then e_date_updated event else s_date_updated r) (services db)
   \<and> (Service_get db (s_pk self) = Some self \<longrightarrow>
        map_option s_date_updated
          (Service_get (snd (update_from_event self event db)) (s_pk self)) =
        Some (if s_date_updated self < e_date_updated event then e_date_updated event
              else s_date_updated self))"
proof -
  have mem: "s_date_updated (fst (update_from_event self event db)) =
     (if s_date_updated self < e_date_updated event then e_date_updated event
      else s_date_updated self)"
    by (simp add: update_from_event_self max_def)
  have rows: "list_all2 (\<lambda>r r'. s_pk r' = s_pk r \<and> s_date_updated r \<le> s_date_updated r'
        \<and> (s_date_updated r' = s_date_updated r \<or> s_date_updated r' = e_date_updated event))
        (services db) (services (snd (update_from_event self event db)))"
    by (simp add: update_from_event_def Let_def update_qs_date_updated_lt_def
        update_qs_status_lt_def update_qs_status_gt_def list_all2_map2 list_all2_same)
  have col: "map s_date_updated (services (snd (update_from_event self event db))) =
       map (\<lambda>r. if s_pk r = s_pk self \<and> s_date_updated self < e_date_updated event
                    \<and> s_date_updated r < e_date_updated event
                 then e_date_updated event else s_date_updated r) (services db)"
    by (simp add: update_from_event_def Let_def update_qs_date_updated_lt_def
        update_qs_status_lt_def update_qs_status_gt_def)
  have stored: "map_option s_date_updated
          (Service_get (snd (update_from_event self event db)) (s_pk self)) =
        Some (if s_date_updated self < e_date_updated event then e_date_updated event
              else s_date_updated self)"
    if "Service_get db (s_pk self) = Some self"
    using update_from_event_stored [OF that, of event] mem by simp
  from mem rows col stored show ?thesis by simp
qed

theorem date_updated_monotone_witness:
  "s_date_updated (fst (update_from_event svc_web ev_A db_web)) = 7
   \<and> s_date_updated (fst (update_from_event svc_web ev_B db_web)) = 5
   \<and> map s_date_updated (services (snd (update_from_event svc_web ev_A db_web))) = [0, 7]
   \<and> map s_date_updated (services (snd (update_from_event svc_web ev_B db_web))) = [0, 5]
   \<and> Service_get db_web (s_pk svc_web) = Some svc_web
   \<and> map_option s_date_updated (Service_get (snd (update_from_event svc_web ev_A db_web)) 2)
       = Some 7"
  using date_updated_monotone [of svc_web ev_A db_web] date_updated_monotone [of svc_web ev_B db_web]
  by (simp add: input_defs model_defs)

text \<open>
  C8. For an event and for an update, \<open>get_message\<close> returns the explicit message when
  one is present, and otherwise the fixed sentence of the status 0, 1 or 2.
\<close>

theorem get_message_rule:
  "(text_true (e_message e) \<longrightarrow> Some (Event_get_message e) = e_message e)
   \<and> (\<not> text_true (e_message e) \<and> e_status e = 0 \<longrightarrow>
        Event_get_message e = ''Service is operating as expected.'')
   \<and> (\<not> text_true (e_message e) \<and> e_status e = 1 \<longrightarrow>
        Event_get_message e = ''Experiencing some issues. Services mostly operational.'')
   \<and> (\<not> text_true (e_message e) \<and> e_status e = 2 \<longrightarrow>
        Event_get_message e = ''Service is unavailable.'')
   \<and> (text_true (u_message u) \<longrightarrow> Some (EventUpdate_get_message u) = u_message u)
   \<and> (\<not> text_true (u_message u) \<and> u_status u = 0 \<longrightarrow>
        EventUpdate_get_message u = ''Service is operating as expected.'')
   \<and> (\<not> text_true (u_message u) \<and> u_status u = 1 \<longrightarrow>
        EventUpdate_get_message u = ''Experiencing some issues. Services mostly operational.'')
   \<and> (\<not> text_true (u_message u) \<and> u_status u = 2 \<longrightarrow>
        EventUpdate_get_message u = ''Service is unavailable.'')"
  by (auto simp: Event_get_message_def EventUpdate_get_message_def get_message_def
      text_true_def split: option.splits)

theorem get_message_rule_witness:
  "Event_get_message ev_A = ''recovering''
   \<and> Event_get_message ev_E1 = ''Service is operating as expected.''
   \<and> Event_get_message ev_B = ''Service is unavailable.''
   \<and> EventUpdate_get_message up1 = ''db down''
   \<and> EventUpdate_get_message (up_blank\<lparr>u_status := 1\<rparr>) =
        ''Experiencing some issues. Services mostly operational.''"
  using get_message_rule [of ev_A up1] get_message_rule [of ev_E1 "up_blank\<lparr>u_status := 1\<rparr>"]
    get_message_rule [of ev_B up1]
  by (simp add: input_defs text_true_def)

text \<open>
  C9. With no explicit message and a status outside 0, 1, 2, \<open>get_message\<close> returns the
  empty string.
\<close>

theorem get_message_total:
  assumes "\<not> text_true message" and "status \<notin> {0, 1, 2}"
  shows "get_message message status = ''''"
  using assms by (simp add: get_message_def)

theorem get_message_total_witness:
  "\<not> text_true None \<and> (3::int) \<notin> {0, 1, 2} \<and> get_message None 3 = ''''
   \<and> get_message (Some '''') (- 1) = ''''
   \<and> Event_get_message (ev_E1\<lparr>e_status := 7\<rparr>) = ''''"
  using get_message_total [of None 3] get_message_total [of "Some ''''" "- 1"]
    get_message_total [of "e_message (ev_E1\<lparr>e_status := 7\<rparr>)" "e_status (ev_E1\<lparr>e_status := 7\<rparr>)"]
  by (simp add: text_true_def Event_get_message_def ev_E1_def)

text \<open>
  C10. A notification whose action does not start with \<open>post_\<close>, or whose \<open>pk_set\<close> is
  absent or empty, changes nothing: \<open>handle_event_m2m_save\<close> returns the instance and the
  database as they were. So clearing all links of an event leaves every stored service
  as it was.
\<close>

theorem no_reaggregation:
  assumes "\<not> prefix ''post_'' action \<or> pk_set = None \<or> pk_set = Some {}"
  shows "handle_event_m2m_save instance action pk_set db = (instance, db)
         \<and> services (services_clear event db) = services db"
  using assms by (auto simp: handle_event_m2m_save_def services_clear_def)

theorem no_reaggregation_witness:
  "handle_event_m2m_save (Forward ev_B) ''pre_add'' (Some {1}) db_web = (Forward ev_B, db_web)
   \<and> handle_event_m2m_save (Reverse svc_db) ''post_clear'' None db_web = (Reverse svc_db, db_web)
   \<and> handle_event_m2m_save (Forward ev_B) ''post_add'' (Some {}) db_web = (Forward ev_B, db_web)
   \<and> services (services_clear ev_B db_web) = services db_web"
  using no_reaggregation [of "''pre_add''" "Some {1}" "Forward ev_B" db_web ev_B]
    no_reaggregation [of "''post_clear''" None "Reverse svc_db" db_web ev_B]
    no_reaggregation [of "''post_add''" "Some {}" "Forward ev_B" db_web ev_B]
  by simp

end
